theory Spec2Isabelle
  imports Complex_Main "HOL-Library.AList" "HOL-Library.Product_Lexorder"
begin

section \<open>Values and failures\<close>

text \<open>
  The functions of \<^verbatim>\<open>traintools.py\<close> are embedded as HOL functions. Python integers are
  \<^typ>\<open>int\<close>. A value whose Python type the code inspects is a \<open>pyval\<close>; the
  constructors are the Python types a time value read from a data file can have. Note that
  \<^verbatim>\<open>type(True) == int\<close> is false in Python: a \<^verbatim>\<open>bool\<close> is not of type
  \<^verbatim>\<open>int\<close>.
\<close>

datatype pyval = PyInt int | PyBool bool | PyFloat rat | PyStr string | PyNone

text \<open>
  Every raise of the source is a value of \<open>error\<close>. A failed \<^verbatim>\<open>assert\<close> raises
  \<^verbatim>\<open>AssertionError\<close> (the failure the specification names InvalidInput); a division by
  zero raises \<^verbatim>\<open>ZeroDivisionError\<close>; an index out of range raises \<^verbatim>\<open>IndexError\<close>.
\<close>

datatype error = AssertionError | ZeroDivisionError | IndexError

section \<open>Time conversion\<close>

text \<open>
  \<^verbatim>\<open>
  def to_minutes_past_midnight(time: int) -> int:
      assert type(time) == int, "The time must be an integer!"
      hours = time // 100
      minutes = time % 100
      return 60 * hours + minutes
  \<close>
  Python's \<^verbatim>\<open>//\<close> and \<^verbatim>\<open>%\<close> on integers are floor division and its remainder, as
  \<open>div\<close> and \<open>mod\<close> on \<^typ>\<open>int\<close> are.
\<close>

fun to_minutes_past_midnight :: "pyval \<Rightarrow> error + int" where
  "to_minutes_past_midnight (PyInt time) =
     (let hours = time div 100;
          minutes = time mod 100
      in Inr (60 * hours + minutes))"
| "to_minutes_past_midnight _ = Inl AssertionError"

text \<open>
  \<^verbatim>\<open>
  def to_regular_time(time: int) -> int:
      assert type(time) == int, "The time must be an integer!"
      hours = time // 60
      minutes = time % 60
      return hours * 100 + minutes
  \<close>
\<close>

fun to_regular_time :: "pyval \<Rightarrow> error + int" where
  "to_regular_time (PyInt time) =
     (let hours = time div 60;
          minutes = time mod 60
      in Inr (hours * 100 + minutes))"
| "to_regular_time _ = Inl AssertionError"

section \<open>Timetable rows\<close>

text \<open>
  A schedule is a pandas \<^verbatim>\<open>DataFrame\<close>; it is embedded as the list of its rows, in the
  order of \<^verbatim>\<open>iterrows()\<close>. The columns of a row are, in this order, the train number,
  \<^verbatim>\<open>first_class\<close>, \<^verbatim>\<open>second_class\<close>, \<^verbatim>\<open>start\<close>, \<^verbatim>\<open>end\<close>,
  \<^verbatim>\<open>departure_time\<close> and \<^verbatim>\<open>arrival_time\<close>; the columns \<^verbatim>\<open>start\<close> and
  \<^verbatim>\<open>end\<close> are the fields \<open>start_station\<close> and \<open>end_station\<close>, since \<open>end\<close> is
  reserved in Isabelle. The type hint of the source makes the train number an integer.
  Stations and times are integers, as \<^verbatim>\<open>TrainStop = Tuple[int, int]\<close> says.

  Seat demands are numbers. A Python float is taken as the rational number it stands for,
  and arithmetic on floats as exact arithmetic: the rounding of binary64 is outside this
  model. So a statement about a quotient speaks for the code as far as the float quotient
  decides the same ceiling as the exact one, which is so for seat counts and capacities of
  any realistic size and fails only for numbers of about \<open>2 ^ 53\<close> and more.
\<close>

record Row =
  train_number :: int
  first_class :: rat
  second_class :: rat
  start_station :: int
  end_station :: int
  departure_time :: int
  arrival_time :: int

type_synonym TrainStop = "int \<times> int"

section \<open>Capacity computation\<close>






section \<open>Per-train schedules\<close>

text \<open>
  A Python \<^verbatim>\<open>dict\<close> keeps its keys in insertion order, and assigning to a key that is
  present keeps the key's place: it is an association list changed by \<open>AList.update\<close>.
  Reading a missing key of a \<^verbatim>\<open>defaultdict\<close> gives the default. \<^verbatim>\<open>row[0]\<close> is the first
  column of the row, the train number.
  \<^verbatim>\<open>
  def create_trains_dict(schedulce):
      trains = defaultdict(pd.DataFrame)
      for index, row in schedulce.iterrows():
          trains[row[0]] = pd.concat([trains[row[0]], pd.DataFrame(row).T])
      return trains
  \<close>
  A sub-table is the list of its rows; \<^verbatim>\<open>pd.concat\<close> appends the one-row table.
\<close>

definition defaultdict_get :: "('k \<times> 'v list) list \<Rightarrow> 'k \<Rightarrow> 'v list" where
  "defaultdict_get d k = (case map_of d k of None \<Rightarrow> [] | Some v \<Rightarrow> v)"

fun create_trains_rows :: "Row list \<Rightarrow> (int \<times> Row list) list \<Rightarrow> (int \<times> Row list) list" where
  "create_trains_rows [] trains = trains"
| "create_trains_rows (row # rows) trains =
     create_trains_rows rows
       (AList.update (train_number row) (defaultdict_get trains (train_number row) @ [row]) trains)"

definition create_trains_dict :: "Row list \<Rightarrow> (int \<times> Row list) list" where
  "create_trains_dict schedulce = create_trains_rows schedulce []"

section \<open>The timetable graph\<close>

text \<open>
  A \<^verbatim>\<open>networkx.DiGraph\<close> over train stops: the nodes in insertion order, and one attribute
  pair \<open>(first_class, second_class)\<close> for each ordered pair of nodes that is an edge. A
  \<^verbatim>\<open>DiGraph\<close> holds at most one edge from \<open>u\<close> to \<open>v\<close>: \<^verbatim>\<open>add_edge\<close> adds the
  end points that are missing, and on an edge that is present it overwrites the attributes
  it is given.
\<close>

record DiGraph =
  nodes :: "TrainStop list"
  edges :: "((TrainStop \<times> TrainStop) \<times> (rat \<times> rat)) list"

definition empty_graph :: DiGraph where
  "empty_graph = \<lparr>nodes = [], edges = []\<rparr>"

definition add_node :: "TrainStop \<Rightarrow> TrainStop list \<Rightarrow> TrainStop list" where
  "add_node n ns = (if n \<in> set ns then ns else ns @ [n])"

definition add_edge :: "TrainStop \<Rightarrow> TrainStop \<Rightarrow> rat \<times> rat \<Rightarrow> DiGraph \<Rightarrow> DiGraph" where
  "add_edge u v attr G =
     \<lparr>nodes = add_node v (add_node u (nodes G)),
      edges = AList.update (u, v) attr (edges G)\<rparr>"

text \<open>
  \<^verbatim>\<open>
  def create_network_schedule(df):
      network_schedule = df[['first_class', 'second_class']].copy()
      network_schedule['start'] = list(zip(df.start, df.departure_time))
      network_schedule['end'] = list(zip(df.end, df.arrival_time))
      return network_schedule
  \<close>
\<close>

definition create_network_schedule :: "Row list \<Rightarrow> (rat \<times> rat \<times> TrainStop \<times> TrainStop) list" where
  "create_network_schedule df =
     map (\<lambda>row. (first_class row, second_class row,
                 (start_station row, departure_time row), (end_station row, arrival_time row))) df"

text \<open>
  \<^verbatim>\<open>nx.from_pandas_edgelist(df, source='start', target='end', edge_attr=[...],
  create_using=nx.DiGraph)\<close> adds, row after row, the edge from the source to the target
  with the row's attributes to a graph that starts empty.
\<close>

fun from_pandas_edgelist ::
  "(rat \<times> rat \<times> TrainStop \<times> TrainStop) list \<Rightarrow> DiGraph \<Rightarrow> DiGraph" where
  "from_pandas_edgelist [] G = G"
| "from_pandas_edgelist ((fc, sc, source, target) # rest) G =
     from_pandas_edgelist rest (add_edge source target (fc, sc) G)"

text \<open>
  \<^verbatim>\<open>
  def find_all_stops_per_station(G):
      nodes_per_station = defaultdict(list)
      for node in G.nodes:
          nodes_per_station[node[0]].append(node)
      for station in nodes_per_station.keys():
          nodes_per_station[station].sort()
      return nodes_per_station
  \<close>
  Tuples are sorted lexicographically, which is the order of pairs in HOL here.
\<close>

fun append_nodes :: "TrainStop list \<Rightarrow> (int \<times> TrainStop list) list \<Rightarrow> (int \<times> TrainStop list) list" where
  "append_nodes [] nodes_per_station = nodes_per_station"
| "append_nodes (node # rest) nodes_per_station =
     append_nodes rest
       (AList.update (fst node) (defaultdict_get nodes_per_station (fst node) @ [node])
          nodes_per_station)"

definition find_all_stops_per_station :: "DiGraph \<Rightarrow> (int \<times> TrainStop list) list" where
  "find_all_stops_per_station G =
     map (\<lambda>(station, stops). (station, sort stops)) (append_nodes (nodes G) [])"

text \<open>
  \<^verbatim>\<open>
  def find_staring_trainstops(G):
      return (stops[0] for stops in find_all_stops_per_station(G).values())
  def find_ending_trainstops(G):
      return [stops[-1] for stops in find_all_stops_per_station(G).values()]
  \<close>
  Indexing an empty list raises \<^verbatim>\<open>IndexError\<close>. The values of the generator are
  collected in a list.
\<close>

fun first_item :: "'a list \<Rightarrow> error + 'a" where
  "first_item [] = Inl IndexError"
| "first_item (x # xs) = Inr x"

fun last_item :: "'a list \<Rightarrow> error + 'a" where
  "last_item [] = Inl IndexError"
| "last_item (x # xs) = Inr (last (x # xs))"

fun collect :: "(error + 'a) list \<Rightarrow> error + 'a list" where
  "collect [] = Inr []"
| "collect (Inl e # rs) = Inl e"
| "collect (Inr x # rs) = (case collect rs of Inl e \<Rightarrow> Inl e | Inr xs \<Rightarrow> Inr (x # xs))"

definition find_staring_trainstops :: "DiGraph \<Rightarrow> error + TrainStop list" where
  "find_staring_trainstops G =
     collect (map (\<lambda>(station, stops). first_item stops) (find_all_stops_per_station G))"

definition find_ending_trainstops :: "DiGraph \<Rightarrow> error + TrainStop list" where
  "find_ending_trainstops G =
     collect (map (\<lambda>(station, stops). last_item stops) (find_all_stops_per_station G))"

text \<open>
  \<^verbatim>\<open>
  def connect_stationary_nodes(G):
      nodes_per_station = find_all_stops_per_station(G)
      for station in nodes_per_station.keys():
          for index, stop in enumerate(nodes_per_station[station][:-1]):
              G.add_edge(stop, nodes_per_station[station][index + 1],
                         first_class=0, second_class=0)
  \<close>
  The inner loop is \<open>connect_stops\<close>, the outer one \<open>connect_stations\<close>; the graph is the
  state of both. The index \<open>index + 1\<close> is within the list, since \<open>index\<close> runs over the
  list without its last element (lemma \<open>enumerate_butlast_in_range\<close>).
\<close>

fun connect_stops :: "(nat \<times> TrainStop) list \<Rightarrow> TrainStop list \<Rightarrow> DiGraph \<Rightarrow> DiGraph" where
  "connect_stops [] stops G = G"
| "connect_stops ((index, stop) # rest) stops G =
     connect_stops rest stops (add_edge stop (stops ! (index + 1)) (0, 0) G)"

fun connect_stations :: "(int \<times> TrainStop list) list \<Rightarrow> DiGraph \<Rightarrow> DiGraph" where
  "connect_stations [] G = G"
| "connect_stations ((station, stops) # rest) G =
     connect_stations rest (connect_stops (enumerate 0 (butlast stops)) stops G)"

definition connect_stationary_nodes :: "DiGraph \<Rightarrow> DiGraph" where
  "connect_stationary_nodes G = connect_stations (find_all_stops_per_station G) G"

text \<open>
  The pairs of stops the inner loop joins for one station: each stop of the list but the
  last, with the stop at the next index.
\<close>

definition hops :: "TrainStop list \<Rightarrow> (TrainStop \<times> TrainStop) set" where
  "hops stops =
     (\<lambda>(index, stop). (stop, stops ! (index + 1))) ` set (enumerate 0 (butlast stops))"

text \<open>
  \<^verbatim>\<open>
  def graph_from_schedule(df):
      schedule_network = create_network_schedule(df)
      G = nx.from_pandas_edgelist(df=schedule_network, source='start', target='end',
              edge_attr=['first_class', 'second_class'], create_using=nx.DiGraph)
      connect_stationary_nodes(G)
      return G
  \<close>
\<close>

definition graph_from_schedule :: "Row list \<Rightarrow> DiGraph" where
  "graph_from_schedule df =
     connect_stationary_nodes (from_pandas_edgelist (create_network_schedule df) empty_graph)"

section \<open>Notions of the statements about the graph\<close>

text \<open>
  The start key and the end key of a row, and the stops of a schedule: the pairs
  (station, time) that are the start key or the end key of a row.
\<close>

definition start_key :: "Row \<Rightarrow> TrainStop" where
  "start_key row = (start_station row, departure_time row)"

definition end_key :: "Row \<Rightarrow> TrainStop" where
  "end_key row = (end_station row, arrival_time row)"

definition stops_of :: "Row list \<Rightarrow> TrainStop set" where
  "stops_of rows = start_key ` set rows \<union> end_key ` set rows"

text \<open>
  \<open>next_stop V u v\<close>: among the stops \<open>V\<close>, \<open>v\<close> is the stop that follows \<open>u\<close> immediately
  in time at the same station.
\<close>

definition next_stop :: "TrainStop set \<Rightarrow> TrainStop \<Rightarrow> TrainStop \<Rightarrow> bool" where
  "next_stop V u v \<longleftrightarrow>
     u \<in> V \<and> v \<in> V \<and> fst u = fst v \<and> snd u < snd v
     \<and> \<not> (\<exists>w \<in> V. fst w = fst u \<and> snd u < snd w \<and> snd w < snd v)"

text \<open>
  The edges of a graph carry no mark of their kind. A travel edge of a schedule is an edge
  from the start key to the end key of one of its rows; a stationary edge of a station is
  an edge from a stop of that station to its next stop.
\<close>

definition travel_edges :: "Row list \<Rightarrow> DiGraph \<Rightarrow> ((TrainStop \<times> TrainStop) \<times> (rat \<times> rat)) list" where
  "travel_edges rows G =
     filter (\<lambda>e. fst e \<in> (\<lambda>row. (start_key row, end_key row)) ` set rows) (edges G)"

definition stationary_edges :: "int \<Rightarrow> DiGraph \<Rightarrow> ((TrainStop \<times> TrainStop) \<times> (rat \<times> rat)) list" where
  "stationary_edges station G =
     filter (\<lambda>e. fst (fst (fst e)) = station \<and> next_stop (set (nodes G)) (fst (fst e)) (snd (fst e)))
       (edges G)"

section \<open>Example inputs\<close>

text \<open>
  \<open>leg n fc sc (s, t) (s', t')\<close> is the row of train \<open>n\<close> with the demands \<open>fc\<close> and \<open>sc\<close>
  that leaves station \<open>s\<close> at minute \<open>t\<close> and reaches station \<open>s'\<close> at minute \<open>t'\<close>.
\<close>

definition leg :: "int \<Rightarrow> rat \<Rightarrow> rat \<Rightarrow> TrainStop \<Rightarrow> TrainStop \<Rightarrow> Row" where
  "leg n fc sc s e =
     \<lparr>train_number = n, first_class = fc, second_class = sc, start_station = fst s,
      end_station = fst e, departure_time = snd s, arrival_time = snd e\<rparr>"

definition station_stops :: DiGraph where
  "station_stops =
     \<lparr>nodes = [(1, 100), (2, 30), (1, 200), (1, 50)],
      edges = [(((1, 100), (1, 200)), (3, 4)), (((2, 30), (1, 50)), (5, 6))]\<rparr>"

definition two_legs :: "Row list" where
  "two_legs = [leg 1 10 20 (1, 540) (2, 570), leg 1 30 40 (2, 585) (3, 615)]"

definition same_leg_twice :: "Row list" where
  "same_leg_twice = [leg 1 10 20 (1, 540) (2, 570), leg 2 30 40 (1, 540) (2, 570)]"

definition within_station :: "Row list" where
  "within_station = [leg 3 10 20 (1, 540) (1, 600)]"

section \<open>Properties of the time conversion\<close>

lemma clock_split:
  fixes h m :: int
  assumes "0 \<le> m" "m < 60"
  shows "(60 * h + m) div 60 = h" and "(60 * h + m) mod 60 = m"
  using assms by simp_all

lemma minutes_split:
  fixes m :: int
  shows "(m div 60 * 100 + m mod 60) div 100 = m div 60"
    and "(m div 60 * 100 + m mod 60) mod 100 = m mod 60"
proof -
  have b: "0 \<le> m mod 60" "m mod 60 < 100"
    using pos_mod_bound [of 60 m] by simp_all
  show "(m div 60 * 100 + m mod 60) div 100 = m div 60"
    using b by (simp add: div_pos_pos_trivial)
  show "(m div 60 * 100 + m mod 60) mod 100 = m mod 60"
    using b by (simp add: mod_pos_pos_trivial)
qed

text \<open>
  Claim C4. For every integer \<open>t\<close> in \<open>[0, 2359]\<close> whose minute part \<open>t mod 100\<close> is at most
  59, converting \<open>t\<close> to minutes past midnight and back gives \<open>t\<close> again; moreover
  \<open>to_minutes_past_midnight 930 = 570\<close> and \<open>to_regular_time 570 = 930\<close>.
\<close>

theorem clock_round_trip:
  "(0 \<le> t \<and> t \<le> 2359 \<and> t mod 100 \<le> 59 \<longrightarrow>
      (\<exists>m. to_minutes_past_midnight (PyInt t) = Inr m \<and> to_regular_time (PyInt m) = Inr t))
   \<and> to_minutes_past_midnight (PyInt 930) = Inr 570
   \<and> to_regular_time (PyInt 570) = Inr 930"
proof -
  have "to_regular_time (PyInt (60 * (t div 100) + t mod 100)) = Inr t"
    if "t mod 100 \<le> 59"
  proof -
    have "0 \<le> t mod 100" "t mod 100 < 60"
      using that by simp_all
    then show ?thesis
      by (simp add: Let_def clock_split)
  qed
  then show ?thesis
    by (simp add: Let_def)
qed

theorem clock_round_trip_witness:
  "(0::int) \<le> 1745 \<and> (1745::int) \<le> 2359 \<and> (1745::int) mod 100 \<le> 59
   \<and> to_minutes_past_midnight (PyInt 1745) = Inr 1065
   \<and> to_regular_time (PyInt 1065) = Inr 1745"
  using clock_round_trip [of 1745] by (simp add: Let_def)

text \<open>
  Claim C9. For every non-negative integer \<open>m\<close>, with no upper bound, converting \<open>m\<close>
  minutes past midnight to clock notation and back gives \<open>m\<close> again.
\<close>

theorem minutes_round_trip:
  "0 \<le> m \<Longrightarrow>
     \<exists>t. to_regular_time (PyInt m) = Inr t \<and> to_minutes_past_midnight (PyInt t) = Inr m"
  by (simp add: Let_def minutes_split)

theorem minutes_round_trip_witness:
  "(0::int) \<le> 1500 \<and> to_regular_time (PyInt 1500) = Inr 2500
   \<and> to_minutes_past_midnight (PyInt 2500) = Inr 1500"
  using minutes_round_trip [of 1500] by (simp add: Let_def)



section \<open>Properties of the capacity computation\<close>







section \<open>Properties of the per-train schedules\<close>

lemma defaultdict_get_update:
  "defaultdict_get (AList.update k v d) k' = (if k' = k then v else defaultdict_get d k')"
  by (simp add: defaultdict_get_def update_conv')

lemma defaultdict_get_Nil: "defaultdict_get [] k = []"
  by (simp add: defaultdict_get_def)

lemma defaultdict_get_Cons:
  "defaultdict_get ((a, b) # d) k = (if k = a then b else defaultdict_get d k)"
  by (simp add: defaultdict_get_def)

lemma sum_length_update_append:
  "(\<Sum>p\<leftarrow>AList.update k (defaultdict_get d k @ [r]) d. length (snd p))
     = (\<Sum>p\<leftarrow>d. length (snd p)) + 1"
proof (induction d)
  case Nil
  show ?case by (simp add: defaultdict_get_def)
next
  case (Cons p d)
  obtain a b where p: "p = (a, b)" by (cases p)
  show ?case
    using Cons.IH by (simp add: p defaultdict_get_Cons)
qed

lemma create_trains_rows_keys:
  "fst ` set (create_trains_rows rows trains) = fst ` set trains \<union> train_number ` set rows"
  by (induction rows arbitrary: trains) (auto simp: dom_update)

lemma create_trains_rows_distinct:
  "distinct (map fst trains) \<Longrightarrow> distinct (map fst (create_trains_rows rows trains))"
  by (induction rows arbitrary: trains) (simp_all add: distinct_update)

lemma create_trains_rows_get:
  "defaultdict_get (create_trains_rows rows trains) k
     = defaultdict_get trains k @ filter (\<lambda>r. train_number r = k) rows"
  by (induction rows arbitrary: trains) (simp_all add: defaultdict_get_update)

lemma create_trains_rows_sum:
  "(\<Sum>p\<leftarrow>create_trains_rows rows trains. length (snd p))
     = (\<Sum>p\<leftarrow>trains. length (snd p)) + length rows"
  by (induction rows arbitrary: trains) (simp_all add: sum_length_update_append)

lemma defaultdict_get_entry:
  "distinct (map fst d) \<Longrightarrow> (k, v) \<in> set d \<Longrightarrow> defaultdict_get d k = v"
  by (simp add: defaultdict_get_def)

text \<open>
  Claim C5. For a schedule of \<open>N\<close> rows with \<open>K\<close> distinct train numbers,
  \<open>create_trains_dict\<close> returns a mapping with exactly \<open>K\<close> entries, one for each train
  number of the schedule; the sizes of the sub-tables add up to \<open>N\<close>; every row is in the
  sub-table of its own train number; and each sub-table holds the rows of its train number
  in the order of the schedule (it is the schedule filtered by that train number).
\<close>

theorem create_trains_dict_partition:
  "distinct (map fst (create_trains_dict rows))
   \<and> fst ` set (create_trains_dict rows) = train_number ` set rows
   \<and> length (create_trains_dict rows) = card (train_number ` set rows)
   \<and> (\<Sum>p\<leftarrow>create_trains_dict rows. length (snd p)) = length rows
   \<and> (\<forall>r \<in> set rows. \<exists>t. (train_number r, t) \<in> set (create_trains_dict rows) \<and> r \<in> set t)
   \<and> (\<forall>(k, t) \<in> set (create_trains_dict rows). t = filter (\<lambda>r. train_number r = k) rows)"
proof -
  let ?d = "create_trains_dict rows"
  have d: "distinct (map fst ?d)"
    by (simp add: create_trains_dict_def create_trains_rows_distinct)
  have keys: "fst ` set ?d = train_number ` set rows"
    by (simp add: create_trains_dict_def create_trains_rows_keys)
  have get: "defaultdict_get ?d k = filter (\<lambda>r. train_number r = k) rows" for k
    by (simp add: create_trains_dict_def create_trains_rows_get defaultdict_get_Nil)
  have entry: "t = filter (\<lambda>r. train_number r = k) rows" if "(k, t) \<in> set ?d" for k t
    using defaultdict_get_entry [OF d that] get by simp
  have "length ?d = length (map fst ?d)"
    by simp
  also have "\<dots> = card (set (map fst ?d))"
    using d by (simp only: distinct_card)
  also have "\<dots> = card (train_number ` set rows)"
    using keys by simp
  finally have len: "length ?d = card (train_number ` set rows)" .
  have total: "(\<Sum>p\<leftarrow>?d. length (snd p)) = length rows"
    by (simp add: create_trains_dict_def create_trains_rows_sum)
  have own: "\<exists>t. (train_number r, t) \<in> set ?d \<and> r \<in> set t" if "r \<in> set rows" for r
  proof -
    from that keys obtain t where t: "(train_number r, t) \<in> set ?d"
      by (metis (no_types, lifting) fst_conv image_iff prod.collapse)
    then have "t = filter (\<lambda>r'. train_number r' = train_number r) rows"
      by (rule entry)
    then have "r \<in> set t"
      using that by simp
    with t show ?thesis
      by blast
  qed
  show ?thesis
    using d keys len total own entry by blast
qed

theorem create_trains_dict_partition_witness:
  "create_trains_dict
     [leg 1 10 20 (1, 540) (2, 570), leg 2 5 5 (4, 545) (3, 580), leg 1 30 40 (2, 585) (3, 615)]
   = [(1, [leg 1 10 20 (1, 540) (2, 570), leg 1 30 40 (2, 585) (3, 615)]),
      (2, [leg 2 5 5 (4, 545) (3, 580)])]"
  using create_trains_dict_partition
    [of "[leg 1 10 20 (1, 540) (2, 570), leg 2 5 5 (4, 545) (3, 580), leg 1 30 40 (2, 585) (3, 615)]"]
  by (simp add: create_trains_dict_def defaultdict_get_def leg_def)

section \<open>Properties of the occupancy table\<close>






section \<open>Properties of the grouping of stops\<close>

lemma append_nodes_keys:
  "fst ` set (append_nodes ns d) = fst ` set d \<union> fst ` set ns"
  by (induction ns arbitrary: d) (auto simp: dom_update)

lemma append_nodes_distinct:
  "distinct (map fst d) \<Longrightarrow> distinct (map fst (append_nodes ns d))"
  by (induction ns arbitrary: d) (simp_all add: distinct_update)

lemma append_nodes_get:
  "defaultdict_get (append_nodes ns d) s = defaultdict_get d s @ filter (\<lambda>n. fst n = s) ns"
  by (induction ns arbitrary: d) (simp_all add: defaultdict_get_update)

lemma stops_per_station_keys:
  "distinct (map fst (find_all_stops_per_station G))"
  "fst ` set (find_all_stops_per_station G) = fst ` set (nodes G)"
proof -
  have m: "map fst (find_all_stops_per_station G) = map fst (append_nodes (nodes G) [])"
    by (simp add: find_all_stops_per_station_def case_prod_unfold comp_def)
  show "distinct (map fst (find_all_stops_per_station G))"
    unfolding m by (simp add: append_nodes_distinct)
  have "set (map fst (find_all_stops_per_station G)) = fst ` set (nodes G)"
    unfolding m using append_nodes_keys [of "nodes G" "[]"] by simp
  then show "fst ` set (find_all_stops_per_station G) = fst ` set (nodes G)"
    by simp
qed

lemma stops_per_station_entry:
  assumes "(s, stops) \<in> set (find_all_stops_per_station G)"
  shows "stops = sort (filter (\<lambda>n. fst n = s) (nodes G))" and "s \<in> fst ` set (nodes G)"
proof -
  from assms obtain l where l: "(s, l) \<in> set (append_nodes (nodes G) [])" "stops = sort l"
    by (auto simp: find_all_stops_per_station_def)
  have "distinct (map fst (append_nodes (nodes G) []))"
    by (simp add: append_nodes_distinct)
  then have "defaultdict_get (append_nodes (nodes G) []) s = l"
    using l(1) by (rule defaultdict_get_entry)
  then have "l = filter (\<lambda>n. fst n = s) (nodes G)"
    by (simp add: append_nodes_get defaultdict_get_Nil)
  with l(2) show "stops = sort (filter (\<lambda>n. fst n = s) (nodes G))"
    by simp
  show "s \<in> fst ` set (nodes G)"
    using assms stops_per_station_keys(2) [of G] by force
qed

lemma stops_per_station_nonempty:
  assumes "(s, stops) \<in> set (find_all_stops_per_station G)"
  shows "stops \<noteq> []" and "set stops = {n \<in> set (nodes G). fst n = s}" and "sorted stops"
proof -
  note e = stops_per_station_entry [OF assms]
  show "set stops = {n \<in> set (nodes G). fst n = s}"
    using e(1) by auto
  with e(2) show "stops \<noteq> []"
    by auto
  show "sorted stops"
    using e(1) by simp
qed

lemma collect_all_Inr:
  "(\<And>x. x \<in> set xs \<Longrightarrow> f x = Inr (g x)) \<Longrightarrow> collect (map f xs) = Inr (map g xs)"
  by (induction xs) simp_all

lemma first_item_hd: "xs \<noteq> [] \<Longrightarrow> first_item xs = Inr (hd xs)"
  by (cases xs) simp_all

lemma last_item_last: "xs \<noteq> [] \<Longrightarrow> last_item xs = Inr (last xs)"
  by (cases xs) simp_all

lemma sorted_hd_least: "sorted xs \<Longrightarrow> x \<in> set xs \<Longrightarrow> hd xs \<le> x"
  by (cases xs) auto

lemma sorted_last_greatest: "sorted xs \<Longrightarrow> x \<in> set xs \<Longrightarrow> x \<le> last xs"
  by (induction xs) (auto split: if_splits)

lemma same_station_le:
  fixes u v :: TrainStop
  shows "fst u = fst v \<Longrightarrow> u \<le> v \<longleftrightarrow> snd u \<le> snd v"
  by (simp add: less_eq_prod_def)

lemma same_station_less:
  fixes u v :: TrainStop
  shows "fst u = fst v \<Longrightarrow> u < v \<longleftrightarrow> snd u < snd v"
  by (simp add: less_prod_def)

lemma staring_trainstops_value:
  "find_staring_trainstops G = Inr (map (\<lambda>p. hd (snd p)) (find_all_stops_per_station G))"
  unfolding find_staring_trainstops_def
  by (rule collect_all_Inr) (auto simp: first_item_hd dest: stops_per_station_nonempty(1))

lemma ending_trainstops_value:
  "find_ending_trainstops G = Inr (map (\<lambda>p. last (snd p)) (find_all_stops_per_station G))"
  unfolding find_ending_trainstops_def
  by (rule collect_all_Inr) (auto simp: last_item_last dest: stops_per_station_nonempty(1))

text \<open>
  Claim C7. For every graph, \<open>find_staring_trainstops\<close> and \<open>find_ending_trainstops\<close> return
  one stop for each entry of the grouping \<open>find_all_stops_per_station\<close>, in the order of the
  grouping, whose keys are the stations having a stop, each once. The \<open>i\<close>-th value is a stop
  of the \<open>i\<close>-th station: the one with the least time of the stops of that station for
  \<open>find_staring_trainstops\<close>, the one with the greatest time for \<open>find_ending_trainstops\<close>.
\<close>

theorem first_and_last_stops:
  "\<exists>firsts lasts.
     find_staring_trainstops G = Inr firsts \<and> find_ending_trainstops G = Inr lasts
     \<and> length firsts = length (find_all_stops_per_station G)
     \<and> length lasts = length (find_all_stops_per_station G)
     \<and> distinct (map fst (find_all_stops_per_station G))
     \<and> fst ` set (find_all_stops_per_station G) = fst ` set (nodes G)
     \<and> (\<forall>i < length (find_all_stops_per_station G).
          firsts ! i \<in> set (nodes G) \<and> lasts ! i \<in> set (nodes G)
          \<and> fst (firsts ! i) = fst (find_all_stops_per_station G ! i)
          \<and> fst (lasts ! i) = fst (find_all_stops_per_station G ! i)
          \<and> (\<forall>n \<in> set (nodes G). fst n = fst (find_all_stops_per_station G ! i) \<longrightarrow>
                snd (firsts ! i) \<le> snd n \<and> snd n \<le> snd (lasts ! i)))"
proof -
  let ?groups = "find_all_stops_per_station G"
  let ?firsts = "map (\<lambda>p. hd (snd p)) ?groups" and ?lasts = "map (\<lambda>p. last (snd p)) ?groups"
  have at: "?firsts ! i \<in> set (nodes G) \<and> ?lasts ! i \<in> set (nodes G)
      \<and> fst (?firsts ! i) = fst (?groups ! i) \<and> fst (?lasts ! i) = fst (?groups ! i)
      \<and> (\<forall>n \<in> set (nodes G). fst n = fst (?groups ! i) \<longrightarrow>
            snd (?firsts ! i) \<le> snd n \<and> snd n \<le> snd (?lasts ! i))"
    if i: "i < length ?groups" for i
  proof -
    obtain s stops where g: "?groups ! i = (s, stops)"
      by (cases "?groups ! i")
    with i have mem: "(s, stops) \<in> set ?groups"
      by (metis nth_mem)
    note ne = stops_per_station_nonempty [OF mem]
    have h: "hd stops \<in> set stops" and l: "last stops \<in> set stops"
      using ne(1) by simp_all
    have fh: "fst (hd stops) = s" and fl: "fst (last stops) = s"
      using h l ne(2) by auto
    have "snd (hd stops) \<le> snd n \<and> snd n \<le> snd (last stops)"
      if "n \<in> set (nodes G)" "fst n = s" for n
    proof -
      from that have n: "n \<in> set stops"
        using ne(2) by simp
      have "hd stops \<le> n" and "n \<le> last stops"
        using ne(3) n by (simp_all add: sorted_hd_least sorted_last_greatest)
      then show ?thesis
        using fh fl that(2) by (simp add: same_station_le)
    qed
    then show ?thesis
      using i g h l fh fl ne(2) by simp
  qed
  show ?thesis
    using staring_trainstops_value [of G] ending_trainstops_value [of G]
      stops_per_station_keys [of G] at
    by (intro exI [of _ ?firsts] exI [of _ ?lasts]) simp
qed

theorem first_and_last_stops_witness:
  "find_all_stops_per_station station_stops = [(1, [(1, 50), (1, 100), (1, 200)]), (2, [(2, 30)])]
   \<and> find_staring_trainstops station_stops = Inr [(1, 50), (2, 30)]
   \<and> find_ending_trainstops station_stops = Inr [(1, 200), (2, 30)]"
  using first_and_last_stops [of station_stops]
  by (simp add: station_stops_def find_staring_trainstops_def find_ending_trainstops_def
      find_all_stops_per_station_def defaultdict_get_def)

section \<open>Properties of the stationary connections\<close>

lemma add_edge_nodes_present:
  "u \<in> set (nodes G) \<Longrightarrow> v \<in> set (nodes G) \<Longrightarrow> nodes (add_edge u v a G) = nodes G"
  by (simp add: add_edge_def add_node_def)

lemma add_edge_edges: "edges (add_edge u v a G) = AList.update (u, v) a (edges G)"
  by (simp add: add_edge_def)

lemma set_update_subset: "set (AList.update k v al) \<subseteq> insert (k, v) (set al)"
  by (induction al) auto

lemma enumerate_butlast_in_range:
  assumes "(index, stop) \<in> set (enumerate 0 (butlast stops))"
  shows "index + 1 < length stops" and "stop = stops ! index"
proof -
  from assms have i: "index < length (butlast stops)" and s: "butlast stops ! index = stop"
    by (simp_all add: in_set_enumerate_eq)
  from i show "index + 1 < length stops"
    by simp
  from i s show "stop = stops ! index"
    by (simp add: nth_butlast)
qed

lemma hops_nth: "hops stops = {(stops ! i, stops ! Suc i) | i. Suc i < length stops}"
proof -
  have e: "set (enumerate 0 (butlast stops)) = {(i, stops ! i) | i. Suc i < length stops}"
    by (auto simp: in_set_enumerate_eq nth_butlast)
  show ?thesis
  proof (rule set_eqI)
    fix p
    have "p \<in> hops stops \<longleftrightarrow> (\<exists>i. Suc i < length stops \<and> p = (stops ! i, stops ! Suc i))"
      unfolding hops_def e by (simp add: image_iff)
    then show "p \<in> hops stops \<longleftrightarrow> p \<in> {(stops ! i, stops ! Suc i) | i. Suc i < length stops}"
      by blast
  qed
qed

lemma hops_subset: "hops stops \<subseteq> set stops \<times> set stops"
  by (auto simp: hops_nth)

lemma connect_stops_nodes:
  "(\<And>index stop. (index, stop) \<in> set ps \<Longrightarrow>
      stop \<in> set (nodes G) \<and> stops ! (index + 1) \<in> set (nodes G))
   \<Longrightarrow> nodes (connect_stops ps stops G) = nodes G"
proof (induction ps arbitrary: G)
  case Nil
  show ?case by simp
next
  case (Cons p ps)
  obtain index stop where p: "p = (index, stop)" by (cases p)
  let ?G = "add_edge stop (stops ! (index + 1)) (0, 0) G"
  have n: "nodes ?G = nodes G"
    using Cons.prems [of index stop] by (simp add: p add_edge_nodes_present)
  have "nodes (connect_stops ps stops ?G) = nodes ?G"
    by (rule Cons.IH) (use Cons.prems n in auto)
  with n show ?case
    by (simp add: p)
qed

lemma connect_stops_edges_subset:
  "set (edges (connect_stops ps stops G))
     \<subseteq> set (edges G) \<union> (\<lambda>(index, stop). ((stop, stops ! (index + 1)), (0, 0))) ` set ps"
proof (induction ps arbitrary: G)
  case Nil
  show ?case by simp
next
  case (Cons p ps)
  obtain index stop where p: "p = (index, stop)" by (cases p)
  show ?case
    using Cons.IH [of "add_edge stop (stops ! (index + 1)) (0, 0) G"]
      set_update_subset [of "(stop, stops ! (index + 1))" "(0, 0)" "edges G"]
    by (auto simp: p add_edge_edges)
qed

lemma connect_station_nodes:
  assumes "set stops \<subseteq> set (nodes G)"
  shows "nodes (connect_stops (enumerate 0 (butlast stops)) stops G) = nodes G"
proof (rule connect_stops_nodes)
  fix index stop
  assume "(index, stop) \<in> set (enumerate 0 (butlast stops))"
  from enumerate_butlast_in_range [OF this]
  have "stops ! index \<in> set stops" "stops ! (index + 1) \<in> set stops" "stop = stops ! index"
    by simp_all
  with assms show "stop \<in> set (nodes G) \<and> stops ! (index + 1) \<in> set (nodes G)"
    by blast
qed

lemma connect_station_edges_subset:
  "set (edges (connect_stops (enumerate 0 (butlast stops)) stops G))
     \<subseteq> set (edges G) \<union> hops stops \<times> {(0, 0)}"
proof -
  have "(\<lambda>(index, stop). ((stop, stops ! (index + 1)), (0::rat, 0::rat))) ` set (enumerate 0 (butlast stops))
      \<subseteq> hops stops \<times> {(0, 0)}"
    unfolding hops_def by force
  with connect_stops_edges_subset [of "enumerate 0 (butlast stops)" stops G] show ?thesis
    by blast
qed

lemma connect_stations_nodes:
  "(\<And>station stops. (station, stops) \<in> set groups \<Longrightarrow> set stops \<subseteq> set (nodes G))
   \<Longrightarrow> nodes (connect_stations groups G) = nodes G"
proof (induction groups arbitrary: G)
  case Nil
  show ?case by simp
next
  case (Cons g groups)
  obtain station stops where g: "g = (station, stops)" by (cases g)
  let ?G = "connect_stops (enumerate 0 (butlast stops)) stops G"
  have n: "nodes ?G = nodes G"
    using Cons.prems [of station stops] by (simp add: g connect_station_nodes)
  have "nodes (connect_stations groups ?G) = nodes ?G"
    by (rule Cons.IH) (use Cons.prems n in auto)
  with n show ?case
    by (simp add: g)
qed

lemma connect_stations_edges_subset:
  "set (edges (connect_stations groups G))
     \<subseteq> set (edges G) \<union> (\<Union>(station, stops) \<in> set groups. hops stops) \<times> {(0, 0)}"
proof (induction groups arbitrary: G)
  case Nil
  show ?case by simp
next
  case (Cons g groups)
  obtain station stops where g: "g = (station, stops)" by (cases g)
  show ?case
    using Cons.IH [of "connect_stops (enumerate 0 (butlast stops)) stops G"]
      connect_station_edges_subset [of stops G]
    by (auto simp: g)
qed

lemma stops_per_station_subset:
  "(station, stops) \<in> set (find_all_stops_per_station G) \<Longrightarrow> set stops \<subseteq> set (nodes G)"
  using stops_per_station_nonempty(2) by auto

text \<open>
  Claim C10. For every graph, \<open>connect_stationary_nodes\<close> leaves the nodes as they are
  (none added, none removed, the order kept), and every edge of the result that is not
  an edge of the graph it started from joins two nodes of that graph.
\<close>

theorem connect_stationary_nodes_frame:
  "nodes (connect_stationary_nodes G) = nodes G
   \<and> (\<forall>e \<in> set (edges (connect_stationary_nodes G)) - set (edges G).
        fst (fst e) \<in> set (nodes G) \<and> snd (fst e) \<in> set (nodes G))"
proof -
  have "nodes (connect_stationary_nodes G) = nodes G"
    unfolding connect_stationary_nodes_def
    by (rule connect_stations_nodes) (rule stops_per_station_subset)
  moreover have "fst (fst e) \<in> set (nodes G) \<and> snd (fst e) \<in> set (nodes G)"
    if "e \<in> set (edges (connect_stationary_nodes G)) - set (edges G)" for e
  proof -
    from that connect_stations_edges_subset [of "find_all_stops_per_station G" G]
    obtain station stops where
      g: "(station, stops) \<in> set (find_all_stops_per_station G)" and h: "fst e \<in> hops stops"
      by (auto simp: connect_stationary_nodes_def)
    from h hops_subset [of stops] stops_per_station_subset [OF g] show ?thesis
      by (cases "fst e") auto
  qed
  ultimately show ?thesis
    by blast
qed

theorem connect_stationary_nodes_frame_witness:
  "nodes (connect_stationary_nodes station_stops) = [(1, 100), (2, 30), (1, 200), (1, 50)]
   \<and> edges (connect_stationary_nodes station_stops)
       = [(((1, 100), (1, 200)), (0, 0)), (((2, 30), (1, 50)), (5, 6)),
          (((1, 50), (1, 100)), (0, 0))]"
  using connect_stationary_nodes_frame [of station_stops]
  by (simp add: station_stops_def connect_stationary_nodes_def find_all_stops_per_station_def
      defaultdict_get_def add_edge_def add_node_def enumerate_eq_zip)

section \<open>Properties of the graph of a schedule\<close>

subsection \<open>The travel edges\<close>

lemma add_node_set: "set (add_node n ns) = insert n (set ns)"
  by (auto simp: add_node_def)

lemma add_node_distinct: "distinct ns \<Longrightarrow> distinct (add_node n ns)"
  by (simp add: add_node_def)

lemma add_edge_nodes_set: "set (nodes (add_edge u v a G)) = insert u (insert v (set (nodes G)))"
  by (auto simp: add_edge_def add_node_set)

lemma add_edge_nodes_distinct: "distinct (nodes G) \<Longrightarrow> distinct (nodes (add_edge u v a G))"
  by (simp add: add_edge_def add_node_distinct)

lemma from_pandas_edgelist_nodes_set:
  "set (nodes (from_pandas_edgelist es G))
     = set (nodes G) \<union> (\<lambda>(fc, sc, s, t). s) ` set es \<union> (\<lambda>(fc, sc, s, t). t) ` set es"
  by (induction es G rule: from_pandas_edgelist.induct) (auto simp: add_edge_nodes_set)

lemma from_pandas_edgelist_nodes_distinct:
  "distinct (nodes G) \<Longrightarrow> distinct (nodes (from_pandas_edgelist es G))"
  by (induction es G rule: from_pandas_edgelist.induct) (simp_all add: add_edge_nodes_distinct)

lemma from_pandas_edgelist_keys:
  "fst ` set (edges (from_pandas_edgelist es G))
     = fst ` set (edges G) \<union> (\<lambda>e. snd (snd e)) ` set es"
  by (induction es G rule: from_pandas_edgelist.induct) (auto simp: add_edge_edges dom_update)

lemma from_pandas_edgelist_keys_distinct:
  "distinct (map fst (edges G)) \<Longrightarrow> distinct (map fst (edges (from_pandas_edgelist es G)))"
  by (induction es G rule: from_pandas_edgelist.induct)
    (simp_all add: add_edge_edges distinct_update)

lemma from_pandas_edgelist_other:
  "p \<notin> (\<lambda>e. snd (snd e)) ` set es \<Longrightarrow>
     map_of (edges (from_pandas_edgelist es G)) p = map_of (edges G) p"
  by (induction es G rule: from_pandas_edgelist.induct)
    (auto simp: add_edge_edges update_conv')

lemma from_pandas_edgelist_lookup:
  "distinct (map (\<lambda>e. snd (snd e)) es) \<Longrightarrow> (fc, sc, p) \<in> set es \<Longrightarrow>
     map_of (edges (from_pandas_edgelist es G)) p = Some (fc, sc)"
proof (induction es G rule: from_pandas_edgelist.induct)
  case (1 G)
  then show ?case by simp
next
  case (2 fc' sc' s' t' rest G)
  show ?case
  proof (cases "(fc, sc, p) = (fc', sc', s', t')")
    case True
    have "p \<notin> (\<lambda>e. snd (snd e)) ` set rest"
      using "2.prems"(1) True by (auto simp: image_iff)
    then show ?thesis
      using True by (simp add: from_pandas_edgelist_other add_edge_edges update_conv')
  next
    case False
    with "2.prems" have "(fc, sc, p) \<in> set rest" "distinct (map (\<lambda>e. snd (snd e)) rest)"
      by auto
    then show ?thesis
      using "2.IH" by simp
  qed
qed

lemma create_network_schedule_keys:
  "map (\<lambda>e. snd (snd e)) (create_network_schedule rows)
     = map (\<lambda>row. (start_key row, end_key row)) rows"
  by (simp add: create_network_schedule_def start_key_def end_key_def)

lemma create_network_schedule_entry:
  "row \<in> set rows \<Longrightarrow>
     (first_class row, second_class row, (start_key row, end_key row))
       \<in> set (create_network_schedule rows)"
  by (auto simp: create_network_schedule_def start_key_def end_key_def)

text \<open>The graph of the travel edges alone, before the stationary edges are added.\<close>

lemma travel_graph_nodes:
  "set (nodes (from_pandas_edgelist (create_network_schedule rows) empty_graph)) = stops_of rows"
  "distinct (nodes (from_pandas_edgelist (create_network_schedule rows) empty_graph))"
proof -
  have "(\<lambda>(fc, sc, s, t). s) ` set (create_network_schedule rows) = start_key ` set rows"
    and "(\<lambda>(fc, sc, s, t). t) ` set (create_network_schedule rows) = end_key ` set rows"
    by (auto simp: create_network_schedule_def start_key_def end_key_def image_iff)
  then show "set (nodes (from_pandas_edgelist (create_network_schedule rows) empty_graph))
      = stops_of rows"
    by (simp add: from_pandas_edgelist_nodes_set stops_of_def empty_graph_def)
  show "distinct (nodes (from_pandas_edgelist (create_network_schedule rows) empty_graph))"
    by (rule from_pandas_edgelist_nodes_distinct) (simp add: empty_graph_def)
qed

lemma travel_graph_keys:
  "fst ` set (edges (from_pandas_edgelist (create_network_schedule rows) empty_graph))
     = (\<lambda>row. (start_key row, end_key row)) ` set rows"
  "distinct (map fst (edges (from_pandas_edgelist (create_network_schedule rows) empty_graph)))"
proof -
  have "(\<lambda>e. snd (snd e)) ` set (create_network_schedule rows)
      = set (map (\<lambda>e. snd (snd e)) (create_network_schedule rows))"
    by simp
  also have "\<dots> = (\<lambda>row. (start_key row, end_key row)) ` set rows"
    by (simp only: create_network_schedule_keys set_map)
  finally show "fst ` set (edges (from_pandas_edgelist (create_network_schedule rows) empty_graph))
      = (\<lambda>row. (start_key row, end_key row)) ` set rows"
    by (simp add: from_pandas_edgelist_keys empty_graph_def)
  show "distinct (map fst (edges (from_pandas_edgelist (create_network_schedule rows) empty_graph)))"
    by (rule from_pandas_edgelist_keys_distinct) (simp add: empty_graph_def)
qed

lemma travel_graph_lookup:
  assumes "distinct (map (\<lambda>row. (start_key row, end_key row)) rows)" "row \<in> set rows"
  shows "map_of (edges (from_pandas_edgelist (create_network_schedule rows) empty_graph))
           (start_key row, end_key row) = Some (first_class row, second_class row)"
  using assms
  by (intro from_pandas_edgelist_lookup create_network_schedule_entry)
    (simp_all only: create_network_schedule_keys)

subsection \<open>The stationary edges\<close>

lemma connect_stops_lookup:
  "map_of (edges (connect_stops ps stops G)) p
     = (if p \<in> (\<lambda>(index, stop). (stop, stops ! (index + 1))) ` set ps then Some (0, 0)
        else map_of (edges G) p)"
proof (induction ps arbitrary: G)
  case Nil
  show ?case by simp
next
  case (Cons q ps)
  obtain index stop where q: "q = (index, stop)" by (cases q)
  show ?case
    using Cons.IH [of "add_edge stop (stops ! (index + 1)) (0, 0) G"]
    by (auto simp: q add_edge_edges update_conv')
qed

lemma connect_stops_keys:
  "fst ` set (edges (connect_stops ps stops G))
     = fst ` set (edges G) \<union> (\<lambda>(index, stop). (stop, stops ! (index + 1))) ` set ps"
proof (induction ps arbitrary: G)
  case Nil
  show ?case by simp
next
  case (Cons q ps)
  obtain index stop where q: "q = (index, stop)" by (cases q)
  show ?case
    using Cons.IH [of "add_edge stop (stops ! (index + 1)) (0, 0) G"]
    by (auto simp: q add_edge_edges dom_update)
qed

lemma connect_stops_keys_distinct:
  "distinct (map fst (edges G)) \<Longrightarrow> distinct (map fst (edges (connect_stops ps stops G)))"
proof (induction ps arbitrary: G)
  case Nil
  then show ?case by simp
next
  case (Cons q ps)
  obtain index stop where q: "q = (index, stop)" by (cases q)
  show ?case
    using Cons by (simp add: q add_edge_edges distinct_update)
qed

lemma connect_stations_lookup:
  "map_of (edges (connect_stations groups G)) p
     = (if p \<in> (\<Union>(station, stops) \<in> set groups. hops stops) then Some (0, 0)
        else map_of (edges G) p)"
proof (induction groups arbitrary: G)
  case Nil
  show ?case by simp
next
  case (Cons g groups)
  obtain station stops where g: "g = (station, stops)" by (cases g)
  show ?case
    using Cons.IH [of "connect_stops (enumerate 0 (butlast stops)) stops G"]
      connect_stops_lookup [of "enumerate 0 (butlast stops)" stops G p]
    by (auto simp: g hops_def)
qed

lemma connect_stations_keys:
  "fst ` set (edges (connect_stations groups G))
     = fst ` set (edges G) \<union> (\<Union>(station, stops) \<in> set groups. hops stops)"
proof (induction groups arbitrary: G)
  case Nil
  show ?case by simp
next
  case (Cons g groups)
  obtain station stops where g: "g = (station, stops)" by (cases g)
  show ?case
    using Cons.IH [of "connect_stops (enumerate 0 (butlast stops)) stops G"]
      connect_stops_keys [of "enumerate 0 (butlast stops)" stops G]
    by (auto simp: g hops_def)
qed

lemma connect_stations_keys_distinct:
  "distinct (map fst (edges G)) \<Longrightarrow> distinct (map fst (edges (connect_stations groups G)))"
proof (induction groups arbitrary: G)
  case Nil
  then show ?case by simp
next
  case (Cons g groups)
  obtain station stops where g: "g = (station, stops)" by (cases g)
  show ?case
    using Cons by (simp add: g connect_stops_keys_distinct)
qed

subsection \<open>Consecutive stops of a sorted list\<close>

lemma strict_sorted_nth_less_iff:
  fixes l :: "TrainStop list"
  assumes "sorted l" "distinct l" "i < length l" "j < length l"
  shows "l ! i < l ! j \<longleftrightarrow> i < j"
proof -
  have s: "sorted_wrt (<) l"
    using assms(1,2) by (simp add: strict_sorted_iff)
  show ?thesis
  proof
    assume lt: "l ! i < l ! j"
    show "i < j"
    proof (rule ccontr)
      assume "\<not> i < j"
      then have "j = i \<or> j < i" by auto
      then have "l ! j \<le> l ! i"
        using sorted_wrt_nth_less [OF s, of j i] assms(3) by auto
      with lt show False by simp
    qed
  next
    assume "i < j"
    then show "l ! i < l ! j"
      using sorted_wrt_nth_less [OF s] assms(4) by blast
  qed
qed

lemma hops_sorted_distinct:
  assumes "sorted l" "distinct l"
  shows "(u, v) \<in> hops l \<longleftrightarrow>
           u \<in> set l \<and> v \<in> set l \<and> u < v \<and> \<not> (\<exists>w \<in> set l. u < w \<and> w < v)"
proof
  assume "(u, v) \<in> hops l"
  then obtain i where i: "Suc i < length l" "u = l ! i" "v = l ! Suc i"
    by (auto simp: hops_nth)
  have lt: "u < v"
    using i strict_sorted_nth_less_iff [OF assms, of i "Suc i"] by simp
  have "\<not> (u < w \<and> w < v)" if "w \<in> set l" for w
  proof
    assume b: "u < w \<and> w < v"
    from that obtain k where k: "k < length l" "w = l ! k"
      by (auto simp: in_set_conv_nth)
    have "i < k" "k < Suc i"
      using b i k strict_sorted_nth_less_iff [OF assms, of i k]
        strict_sorted_nth_less_iff [OF assms, of k "Suc i"] by simp_all
    then show False by simp
  qed
  with lt i show "u \<in> set l \<and> v \<in> set l \<and> u < v \<and> \<not> (\<exists>w \<in> set l. u < w \<and> w < v)"
    by auto
next
  assume a: "u \<in> set l \<and> v \<in> set l \<and> u < v \<and> \<not> (\<exists>w \<in> set l. u < w \<and> w < v)"
  then obtain i j where ij: "i < length l" "u = l ! i" "j < length l" "v = l ! j"
    by (auto simp: in_set_conv_nth)
  have "i < j"
    using a ij strict_sorted_nth_less_iff [OF assms, of i j] by simp
  have "j = Suc i"
  proof (rule ccontr)
    assume "j \<noteq> Suc i"
    with \<open>i < j\<close> have m: "Suc i < j" by simp
    then have "l ! i < l ! Suc i" "l ! Suc i < l ! j"
      using ij strict_sorted_nth_less_iff [OF assms, of i "Suc i"]
        strict_sorted_nth_less_iff [OF assms, of "Suc i" j] by simp_all
    moreover have "l ! Suc i \<in> set l"
      using m ij(3) by simp
    ultimately show False
      using a ij by blast
  qed
  with ij show "(u, v) \<in> hops l"
    by (auto simp: hops_nth)
qed

lemma card_hops:
  assumes "distinct l"
  shows "card (hops l) = length l - 1"
proof -
  have h: "hops l = (\<lambda>i. (l ! i, l ! Suc i)) ` {i. Suc i < length l}"
    by (auto simp: hops_nth)
  have "inj_on (\<lambda>i. (l ! i, l ! Suc i)) {i. Suc i < length l}"
    using assms by (auto simp: inj_on_def nth_eq_iff_index_eq)
  then have "card (hops l) = card {i. Suc i < length l}"
    unfolding h by (rule card_image)
  also have "{i. Suc i < length l} = {..<length l - 1}"
    by auto
  finally show ?thesis
    by simp
qed

lemma length_filter_keys:
  assumes "distinct (map fst al)"
  shows "length (filter (\<lambda>e. fst e \<in> K) al) = card (K \<inter> fst ` set al)"
proof -
  have "distinct (map fst (filter (\<lambda>e. fst e \<in> K) al))"
    using assms by (rule distinct_map_filter)
  then have "card (set (map fst (filter (\<lambda>e. fst e \<in> K) al)))
      = length (map fst (filter (\<lambda>e. fst e \<in> K) al))"
    by (rule distinct_card)
  moreover have "set (map fst (filter (\<lambda>e. fst e \<in> K) al)) = K \<inter> fst ` set al"
    by auto
  ultimately show ?thesis
    by simp
qed

lemma station_hops:
  assumes "distinct (nodes G)" "(s, stops) \<in> set (find_all_stops_per_station G)"
  shows "hops stops = {(u, v). fst u = s \<and> next_stop (set (nodes G)) u v}"
proof -
  note e = stops_per_station_entry [OF assms(2)]
  have srt: "sorted stops" and dst: "distinct stops"
    using e(1) assms(1) by simp_all
  have mem: "n \<in> set stops \<longleftrightarrow> n \<in> set (nodes G) \<and> fst n = s" for n
    using e(1) by auto
  have "(u, v) \<in> hops stops \<longleftrightarrow> fst u = s \<and> next_stop (set (nodes G)) u v" for u v
  proof
    assume "(u, v) \<in> hops stops"
    then have h: "u \<in> set stops" "v \<in> set stops" "u < v"
      "\<And>w. w \<in> set stops \<Longrightarrow> \<not> (u < w \<and> w < v)"
      by (auto simp: hops_sorted_distinct [OF srt dst])
    have "\<not> (snd u < snd w \<and> snd w < snd v)" if "w \<in> set (nodes G)" "fst w = fst u" for w
      using h(4) [of w] h(1,2) that by (simp add: mem same_station_less)
    then show "fst u = s \<and> next_stop (set (nodes G)) u v"
      using h(1,2,3) by (auto simp: mem next_stop_def same_station_less)
  next
    assume a: "fst u = s \<and> next_stop (set (nodes G)) u v"
    then have uv: "u \<in> set stops" "v \<in> set stops" "fst u = fst v" "snd u < snd v"
      by (simp_all add: mem next_stop_def)
    have "\<not> (u < w \<and> w < v)" if "w \<in> set stops" for w
    proof
      assume b: "u < w \<and> w < v"
      from that a have w: "w \<in> set (nodes G)" "fst w = fst u"
        by (simp_all add: mem)
      then have "snd u < snd w \<and> snd w < snd v"
        using b uv(3) by (simp add: same_station_less)
      with a w show False
        by (auto simp: next_stop_def)
    qed
    then show "(u, v) \<in> hops stops"
      using uv by (auto simp: hops_sorted_distinct [OF srt dst] same_station_less)
  qed
  then show ?thesis
    by auto
qed

lemma all_hops:
  assumes "distinct (nodes G)"
  shows "(\<Union>(station, stops) \<in> set (find_all_stops_per_station G). hops stops)
           = {(u, v). next_stop (set (nodes G)) u v}"
proof (rule set_eqI)
  fix p :: "TrainStop \<times> TrainStop"
  obtain u v where p: "p = (u, v)" by (cases p)
  show "p \<in> (\<Union>(station, stops) \<in> set (find_all_stops_per_station G). hops stops)
      \<longleftrightarrow> p \<in> {(u, v). next_stop (set (nodes G)) u v}"
  proof
    assume "p \<in> (\<Union>(station, stops) \<in> set (find_all_stops_per_station G). hops stops)"
    then obtain s stops where "(s, stops) \<in> set (find_all_stops_per_station G)" "p \<in> hops stops"
      by auto
    with station_hops [OF assms] show "p \<in> {(u, v). next_stop (set (nodes G)) u v}"
      by auto
  next
    assume "p \<in> {(u, v). next_stop (set (nodes G)) u v}"
    then have n: "next_stop (set (nodes G)) u v"
      by (simp add: p)
    then have "fst u \<in> fst ` set (nodes G)"
      by (simp add: next_stop_def)
    then obtain stops where g: "(fst u, stops) \<in> set (find_all_stops_per_station G)"
      using stops_per_station_keys(2) [of G] by (metis (no_types, lifting) fst_conv image_iff prod.collapse)
    with n station_hops [OF assms g] have "p \<in> hops stops"
      by (simp add: p)
    with g show "p \<in> (\<Union>(station, stops) \<in> set (find_all_stops_per_station G). hops stops)"
      by auto
  qed
qed

lemma station_stop_count:
  assumes "distinct (nodes G)" "(s, stops) \<in> set (find_all_stops_per_station G)"
  shows "length stops = card {n \<in> set (nodes G). fst n = s}"
proof -
  note e = stops_per_station_entry [OF assms(2)]
  have "distinct stops"
    using e(1) assms(1) by simp
  then have "length stops = card (set stops)"
    by (simp add: distinct_card)
  also have "set stops = {n \<in> set (nodes G). fst n = s}"
    using e(1) by auto
  finally show ?thesis .
qed

subsection \<open>The graph of a schedule\<close>

text \<open>
  What \<open>graph_from_schedule\<close> builds, for every schedule: the nodes are the stops of the
  schedule, each once; there is one edge for each pair (start key, end key) of a row and for
  each pair of a stop and its next stop, and no other; an edge from a stop to its next
  stop has the attributes \<open>(0, 0)\<close>, whatever a row says, and any other edge has the
  attributes the travel edges give it.
\<close>

lemma graph_nodes:
  "nodes (graph_from_schedule rows)
     = nodes (from_pandas_edgelist (create_network_schedule rows) empty_graph)"
  unfolding graph_from_schedule_def connect_stationary_nodes_def
  by (rule connect_stations_nodes) (rule stops_per_station_subset)

lemma graph_nodes_stops:
  "set (nodes (graph_from_schedule rows)) = stops_of rows"
  "distinct (nodes (graph_from_schedule rows))"
  by (simp_all add: graph_nodes travel_graph_nodes)

lemma graph_keys:
  "fst ` set (edges (graph_from_schedule rows))
     = (\<lambda>row. (start_key row, end_key row)) ` set rows \<union> {(u, v). next_stop (stops_of rows) u v}"
  "distinct (map fst (edges (graph_from_schedule rows)))"
proof -
  let ?T = "from_pandas_edgelist (create_network_schedule rows) empty_graph"
  show "fst ` set (edges (graph_from_schedule rows))
      = (\<lambda>row. (start_key row, end_key row)) ` set rows \<union> {(u, v). next_stop (stops_of rows) u v}"
    unfolding graph_from_schedule_def connect_stationary_nodes_def connect_stations_keys
    using all_hops [of ?T] by (simp add: travel_graph_nodes travel_graph_keys)
  show "distinct (map fst (edges (graph_from_schedule rows)))"
    unfolding graph_from_schedule_def connect_stationary_nodes_def
    by (intro connect_stations_keys_distinct travel_graph_keys)
qed

lemma graph_lookup:
  "map_of (edges (graph_from_schedule rows)) (u, v)
     = (if next_stop (stops_of rows) u v then Some (0, 0)
        else map_of (edges (from_pandas_edgelist (create_network_schedule rows) empty_graph)) (u, v))"
proof -
  let ?T = "from_pandas_edgelist (create_network_schedule rows) empty_graph"
  have "(u, v) \<in> (\<Union>(station, stops) \<in> set (find_all_stops_per_station ?T). hops stops)
      \<longleftrightarrow> next_stop (stops_of rows) u v"
    using all_hops [of ?T] by (simp add: travel_graph_nodes)
  then show ?thesis
    unfolding graph_from_schedule_def connect_stationary_nodes_def connect_stations_lookup
    by simp
qed

lemma graph_edge_iff:
  "((u, v), a) \<in> set (edges (graph_from_schedule rows))
     \<longleftrightarrow> map_of (edges (graph_from_schedule rows)) (u, v) = Some a"
  using graph_keys(2) [of rows] by simp

lemma travel_edges_count:
  "length (travel_edges rows (graph_from_schedule rows))
     = card ((\<lambda>row. (start_key row, end_key row)) ` set rows)"
proof -
  let ?K = "(\<lambda>row. (start_key row, end_key row)) ` set rows"
  have "length (travel_edges rows (graph_from_schedule rows))
      = card (?K \<inter> fst ` set (edges (graph_from_schedule rows)))"
    unfolding travel_edges_def by (rule length_filter_keys) (rule graph_keys)
  also have "?K \<inter> fst ` set (edges (graph_from_schedule rows)) = ?K"
    unfolding graph_keys by blast
  finally show ?thesis .
qed

lemma stationary_edges_count:
  assumes "station \<in> fst ` stops_of rows"
  shows "length (stationary_edges station (graph_from_schedule rows))
           = card {n \<in> stops_of rows. fst n = station} - 1"
proof -
  let ?T = "from_pandas_edgelist (create_network_schedule rows) empty_graph"
  let ?K = "{(u, v). fst u = station \<and> next_stop (stops_of rows) u v}"
  from assms obtain stops where g: "(station, stops) \<in> set (find_all_stops_per_station ?T)"
    using stops_per_station_keys(2) [of ?T]
    by (metis (no_types, lifting) travel_graph_nodes(1) fst_conv image_iff prod.collapse)
  have d: "distinct (nodes ?T)"
    by (rule travel_graph_nodes)
  have k: "hops stops = ?K"
    using station_hops [OF d g] by (simp add: travel_graph_nodes)
  have "stationary_edges station (graph_from_schedule rows)
      = filter (\<lambda>e. fst e \<in> ?K) (edges (graph_from_schedule rows))"
    unfolding stationary_edges_def
    by (rule filter_cong) (simp_all add: graph_nodes_stops case_prod_unfold)
  then have "length (stationary_edges station (graph_from_schedule rows))
      = card (?K \<inter> fst ` set (edges (graph_from_schedule rows)))"
    by (simp only: length_filter_keys [OF graph_keys(2)])
  also have "?K \<inter> fst ` set (edges (graph_from_schedule rows)) = ?K"
    unfolding graph_keys by blast
  also have "card ?K = length stops - 1"
    using stops_per_station_entry(1) [OF g] d by (simp add: k [symmetric] card_hops)
  also have "length stops = card {n \<in> stops_of rows. fst n = station}"
    using station_stop_count [OF d g] by (simp add: travel_graph_nodes)
  finally show ?thesis .
qed

lemma stationary_edges_zero:
  assumes "e \<in> set (stationary_edges station (graph_from_schedule rows))"
  shows "snd e = (0, 0)"
proof -
  obtain u v a where e: "e = ((u, v), a)"
    by (metis prod.collapse)
  from assms have "next_stop (stops_of rows) u v" "((u, v), a) \<in> set (edges (graph_from_schedule rows))"
    by (simp_all add: stationary_edges_def e graph_nodes_stops)
  then show ?thesis
    by (simp add: e graph_edge_iff graph_lookup)
qed

text \<open>
  Claim C3, amended. Take a schedule in which no two rows have both the same start key and
  the same end key, and in which no row runs from a stop to the next stop of the same station.
  Then the graph of \<open>graph_from_schedule\<close> has exactly the stops of the schedule as its
  nodes, each once, so as many nodes as there are distinct (station, time) pairs among the
  start and end keys; it has at most one edge for each ordered pair of nodes; its travel edges
  are as many as the rows, and the edge from the start key to the end key of a row carries
  the \<open>first_class\<close> and \<open>second_class\<close> of that row; for every station it has exactly (number
  of stops of the station - 1) stationary edges, each with the attributes \<open>(0, 0)\<close>, one from
  each stop to its next stop at the station; and every edge is a travel edge or a
  stationary edge.
\<close>

theorem graph_from_schedule_shape:
  assumes "distinct (map (\<lambda>row. (start_key row, end_key row)) rows)"
    and "\<forall>row \<in> set rows. \<not> next_stop (stops_of rows) (start_key row) (end_key row)"
  shows "distinct (nodes (graph_from_schedule rows))
     \<and> set (nodes (graph_from_schedule rows)) = stops_of rows
     \<and> length (nodes (graph_from_schedule rows)) = card (stops_of rows)
     \<and> distinct (map fst (edges (graph_from_schedule rows)))
     \<and> length (travel_edges rows (graph_from_schedule rows)) = length rows
     \<and> (\<forall>row \<in> set rows.
           ((start_key row, end_key row), (first_class row, second_class row))
             \<in> set (edges (graph_from_schedule rows)))
     \<and> (\<forall>station \<in> fst ` stops_of rows.
           length (stationary_edges station (graph_from_schedule rows))
             = card {n \<in> stops_of rows. fst n = station} - 1)
     \<and> (\<forall>station. \<forall>e \<in> set (stationary_edges station (graph_from_schedule rows)).
           snd e = (0, 0))
     \<and> (\<forall>u v. next_stop (stops_of rows) u v \<longrightarrow>
           ((u, v), (0, 0)) \<in> set (edges (graph_from_schedule rows)))
     \<and> (\<forall>e \<in> set (edges (graph_from_schedule rows)).
           e \<in> set (travel_edges rows (graph_from_schedule rows))
           \<or> e \<in> set (stationary_edges (fst (fst (fst e))) (graph_from_schedule rows)))"
proof -
  let ?G = "graph_from_schedule rows"
  let ?K = "(\<lambda>row. (start_key row, end_key row)) ` set rows"
  have n1: "distinct (nodes ?G)" and n2: "set (nodes ?G) = stops_of rows"
    by (simp_all add: graph_nodes_stops)
  have n3: "length (nodes ?G) = card (stops_of rows)"
    using n1 n2 distinct_card [of "nodes ?G"] by simp
  have e1: "distinct (map fst (edges ?G))"
    by (rule graph_keys)
  have "card ?K = length rows"
    using assms(1) distinct_card [of "map (\<lambda>row. (start_key row, end_key row)) rows"] by simp
  then have t1: "length (travel_edges rows ?G) = length rows"
    by (simp add: travel_edges_count)
  have t2: "((start_key row, end_key row), (first_class row, second_class row)) \<in> set (edges ?G)"
    if "row \<in> set rows" for row
    using that assms(2) travel_graph_lookup [OF assms(1) that]
    by (simp add: graph_edge_iff graph_lookup)
  have s1: "length (stationary_edges station ?G) = card {n \<in> stops_of rows. fst n = station} - 1"
    if "station \<in> fst ` stops_of rows" for station
    using that by (rule stationary_edges_count)
  have s2: "snd e = (0, 0)" if "e \<in> set (stationary_edges station ?G)" for station e
    using that by (rule stationary_edges_zero)
  have s3: "((u, v), (0, 0)) \<in> set (edges ?G)" if "next_stop (stops_of rows) u v" for u v
    using that by (simp add: graph_edge_iff graph_lookup)
  have c: "e \<in> set (travel_edges rows ?G) \<or> e \<in> set (stationary_edges (fst (fst (fst e))) ?G)"
    if "e \<in> set (edges ?G)" for e
  proof -
    from that have "fst e \<in> fst ` set (edges ?G)"
      by (rule imageI)
    then have "fst e \<in> ?K \<or> next_stop (stops_of rows) (fst (fst e)) (snd (fst e))"
      unfolding graph_keys by auto
    then show ?thesis
      using that by (auto simp: travel_edges_def stationary_edges_def graph_nodes_stops)
  qed
  show ?thesis
    using n1 n2 n3 e1 t1 t2 s1 s2 s3 c by blast
qed

lemma two_legs_graph:
  "graph_from_schedule two_legs
     = \<lparr>nodes = [(1, 540), (2, 570), (2, 585), (3, 615)],
        edges = [(((1, 540), (2, 570)), (10, 20)), (((2, 585), (3, 615)), (30, 40)),
                 (((2, 570), (2, 585)), (0, 0))]\<rparr>"
  by (simp add: two_legs_def leg_def graph_from_schedule_def create_network_schedule_def
      empty_graph_def connect_stationary_nodes_def find_all_stops_per_station_def
      defaultdict_get_def add_edge_def add_node_def enumerate_eq_zip)

theorem graph_from_schedule_shape_witness:
  "distinct (map (\<lambda>row. (start_key row, end_key row)) two_legs)
   \<and> \<not> next_stop (stops_of two_legs) (1, 540) (2, 570)
   \<and> \<not> next_stop (stops_of two_legs) (2, 585) (3, 615)
   \<and> nodes (graph_from_schedule two_legs) = [(1, 540), (2, 570), (2, 585), (3, 615)]
   \<and> edges (graph_from_schedule two_legs)
       = [(((1, 540), (2, 570)), (10, 20)), (((2, 585), (3, 615)), (30, 40)),
          (((2, 570), (2, 585)), (0, 0))]
   \<and> length (travel_edges two_legs (graph_from_schedule two_legs)) = 2
   \<and> stationary_edges 2 (graph_from_schedule two_legs) = [(((2, 570), (2, 585)), (0, 0))]"
proof -
  have h1: "distinct (map (\<lambda>row. (start_key row, end_key row)) two_legs)"
    by (simp add: two_legs_def leg_def start_key_def end_key_def)
  have h2: "\<not> next_stop (stops_of two_legs) (1, 540) (2, 570)"
    "\<not> next_stop (stops_of two_legs) (2, 585) (3, 615)"
    by (simp_all add: next_stop_def)
  have h3: "\<forall>row \<in> set two_legs. \<not> next_stop (stops_of two_legs) (start_key row) (end_key row)"
    by (simp add: two_legs_def leg_def start_key_def end_key_def next_stop_def)
  have s: "stationary_edges 2 (graph_from_schedule two_legs) = [(((2, 570), (2, 585)), (0, 0))]"
    by (simp add: two_legs_graph stationary_edges_def next_stop_def)
  have t: "length (travel_edges two_legs (graph_from_schedule two_legs)) = length two_legs"
    using graph_from_schedule_shape [OF h1 h3] by blast
  have "length two_legs = 2"
    by (simp add: two_legs_def)
  with t have "length (travel_edges two_legs (graph_from_schedule two_legs)) = 2"
    by simp
  then show ?thesis
    using h1 h2 s by (simp add: two_legs_graph)
qed

theorem graph_from_schedule_counterexample:
  "length same_leg_twice = 2
   \<and> edges (graph_from_schedule same_leg_twice) = [(((1, 540), (2, 570)), (30, 40))]
   \<and> length (travel_edges same_leg_twice (graph_from_schedule same_leg_twice)) \<noteq> length same_leg_twice
   \<and> first_class (hd within_station) = 10 \<and> second_class (hd within_station) = 20
   \<and> edges (graph_from_schedule within_station) = [(((1, 540), (1, 600)), (0, 0))]"
  by (simp add: same_leg_twice_def within_station_def leg_def graph_from_schedule_def
      create_network_schedule_def empty_graph_def connect_stationary_nodes_def
      find_all_stops_per_station_def defaultdict_get_def add_edge_def add_node_def
      enumerate_eq_zip travel_edges_def)

end
